theory Spec2Isabelle
  imports Main "HOL-Library.AList" "HOL-Library.Word"
begin

section \<open>Data model\<close>

text \<open>
  A post as the service sees it: an object with the attributes \<^verbatim>\<open>id\<close>, \<^verbatim>\<open>text\<close> and
  \<^verbatim>\<open>owner_id\<close> (models/post.py, schemas/post.py). The attribute \<^verbatim>\<open>id\<close> is called
  \<open>ident\<close> here, since \<open>id\<close> is HOL's identity function, and \<^verbatim>\<open>text\<close> is
  called \<open>post_text\<close>, since the word is reserved.
\<close>

record post =
  ident :: int
  post_text :: string
  owner_id :: int

text \<open>schemas/post.py, \<^verbatim>\<open>PostCreate\<close>: the body of an add request.\<close>

record post_create =
  pc_text :: string

text \<open>The part of an HTTP request the service reads: the raw body, a list of bytes.\<close>

record request =
  body :: "8 word list"

text \<open>
  \<^verbatim>\<open>PostResponse.from_orm\<close> copies the three attributes into a response object.
\<close>

definition from_orm :: "post \<Rightarrow> post" where
  "from_orm p = \<lparr>ident = ident p, post_text = post_text p, owner_id = owner_id p\<rparr>"

text \<open>
  What a call can raise: an \<^verbatim>\<open>HTTPException\<close> with its status code and detail, or one
  of the two exceptions of Python's \<^verbatim>\<open>int(...)\<close> conversion.
\<close>

datatype exn = HTTPException nat string | TypeError | ValueError

section \<open>The posts table\<close>

text \<open>
  Modelled from the spec: the database session (core/database.py and the SQL engine
  behind it) is missing from the sources. Section 4.3 of the specification gives the
  store three operations: create assigns a new unique id and persists the record,
  listByOwner returns the posts of an owner, deleteById removes a record. The table is
  a list of rows with the next primary key; \<open>reads\<close> counts the select statements
  executed, the store-call counter of the specification's section 8.
\<close>

record database =
  rows :: "post list"
  next_id :: int
  reads :: nat

text \<open>
  Modelled from the spec: \<^verbatim>\<open>db.add(new_post)\<close> and \<^verbatim>\<open>db.commit()\<close>, the store's create: the
  row gets the next primary key and is appended to the table.
\<close>

definition db_add_commit :: "database \<Rightarrow> string \<Rightarrow> int \<Rightarrow> post \<times> database" where
  "db_add_commit d t u =
     (let new_post = \<lparr>ident = next_id d, post_text = t, owner_id = u\<rparr>
      in (new_post, d\<lparr>rows := rows d @ [new_post], next_id := next_id d + 1\<rparr>))"

text \<open>
  Modelled from the spec: \<^verbatim>\<open>db.execute(select(Post).filter(...))\<close>, the rows that satisfy
  the condition, in table order; one more read of the store.
\<close>

definition db_select :: "database \<Rightarrow> (post \<Rightarrow> bool) \<Rightarrow> post list \<times> database" where
  "db_select d cond = (filter cond (rows d), d\<lparr>reads := reads d + 1\<rparr>)"

text \<open>
  Modelled from the spec: \<^verbatim>\<open>db.delete(post)\<close> and \<^verbatim>\<open>db.commit()\<close>, the row with the primary key
  of the object leaves the table.
\<close>

definition db_delete_commit :: "database \<Rightarrow> post \<Rightarrow> database" where
  "db_delete_commit d p = d\<lparr>rows := filter (\<lambda>r. ident r \<noteq> ident p) (rows d)\<rparr>"

section \<open>The cache\<close>

text \<open>
  Modelled from the spec: the cache is an instance of a class of an external library,
  built in controllers/post_service.py as \<^verbatim>\<open>TTLCache(maxsize=100, ttl=300)\<close>. Section 4.4
  of the specification: a key-value store from owner id to a sequence of posts, bounded
  by a capacity of 100 entries, the least recently used entry evicted when full, each
  entry expiring a fixed time-to-live (300 seconds) after the last write to its key;
  get is absent for a key never populated, evicted or expired; put overwrites or
  creates the entry and resets its expiry.

  The cache is a list of links (key, value, expiry time), least recently used first.
  Every operation reads the timer once; the reading is the argument \<open>now\<close>, in seconds.
\<close>

type_synonym link = "int \<times> post list \<times> int"
type_synonym ttl_cache = "link list"

definition maxsize :: nat where
  "maxsize = 100"

definition ttl :: int where
  "ttl = 300"

text \<open>
  Modelled from the spec: the links whose time-to-live has passed leave the cache.
\<close>

definition expire :: "int \<Rightarrow> ttl_cache \<Rightarrow> ttl_cache" where
  "expire now c = filter (\<lambda>(k, v, e). now < e) c"

text \<open>
  Modelled from the spec: \<^verbatim>\<open>cache.get(key)\<close> is \<^verbatim>\<open>None\<close> for a key that is missing or
  expired; a hit makes the link the most recently used one.
\<close>

definition cache_get :: "int \<Rightarrow> ttl_cache \<Rightarrow> int \<Rightarrow> post list option \<times> ttl_cache" where
  "cache_get now c k =
     (case map_of c k of
        None \<Rightarrow> (None, c)
      | Some (v, e) \<Rightarrow>
          if now < e then (Some v, filter (\<lambda>l. fst l \<noteq> k) c @ [(k, v, e)])
          else (None, c))"

text \<open>
  Modelled from the spec: \<^verbatim>\<open>cache[key] = value\<close> drops the expired links, overwrites the
  link of the key or, for a new key, evicts from the least recently used end until
  there is room, and gives the link a fresh expiry.
\<close>

definition cache_setitem :: "int \<Rightarrow> ttl_cache \<Rightarrow> int \<Rightarrow> post list \<Rightarrow> ttl_cache" where
  "cache_setitem now c k v =
     (let c1 = expire now c
      in if k \<in> fst ` set c1
         then filter (\<lambda>l. fst l \<noteq> k) c1 @ [(k, v, now + ttl)]
         else drop (length c1 + 1 - maxsize) c1 @ [(k, v, now + ttl)])"

text \<open>
  \<^verbatim>\<open>cached_posts.append(x)\<close> changes the list object the cache holds for the key: the
  value of the link changes in place, its expiry and its position do not.
\<close>

definition cache_append :: "ttl_cache \<Rightarrow> int \<Rightarrow> post \<Rightarrow> ttl_cache" where
  "cache_append c k x = map (\<lambda>(k', v, e). if k' = k then (k', v @ [x], e) else (k', v, e)) c"

text \<open>Python's truth value of \<^verbatim>\<open>cached_posts\<close>: false for \<^verbatim>\<open>None\<close> and for the empty list.\<close>

fun truthy :: "post list option \<Rightarrow> bool" where
  "truthy None = False"
| "truthy (Some xs) = (xs \<noteq> [])"

section \<open>controllers/post_service.py\<close>

text \<open>
  The state the service functions work on: the database behind the session \<^verbatim>\<open>db\<close> and
  the module-level \<^verbatim>\<open>cache\<close>. Every function returns its result, or the exception it
  raises, together with the state it leaves.
\<close>

record world =
  db :: database
  cache :: ttl_cache

definition add_post_to_db_and_cache ::
  "post_create \<Rightarrow> int \<Rightarrow> world \<Rightarrow> request \<Rightarrow> int \<Rightarrow> (exn + post) \<times> world" where
  "add_post_to_db_and_cache post user_id w request now =
     (let body_size = length (body request)
      in if body_size > 1000000
         then (Inl (HTTPException 413 ''Payload too large''), w)
         else
           let (new_post, db1) = db_add_commit (db w) (pc_text post) user_id;
               (cached_posts, c1) = cache_get now (cache w) user_id
           in if truthy cached_posts
              then (Inr new_post, \<lparr>db = db1, cache = cache_append c1 user_id (from_orm new_post)\<rparr>)
              else (Inr new_post, \<lparr>db = db1, cache = c1\<rparr>))"

definition get_user_posts_from_cache_or_db ::
  "int \<Rightarrow> world \<Rightarrow> int \<Rightarrow> (exn + post list) \<times> world" where
  "get_user_posts_from_cache_or_db user_id w now =
     (let (cached_posts, c1) = cache_get now (cache w) user_id
      in if truthy cached_posts
         then (Inr (map from_orm (case cached_posts of Some xs \<Rightarrow> xs | None \<Rightarrow> [])),
               \<lparr>db = db w, cache = c1\<rparr>)
         else
           let (posts, db1) = db_select (db w) (\<lambda>p. owner_id p = user_id)
           in if posts = []
              then (Inl (HTTPException 404 ''No posts found''), \<lparr>db = db1, cache = c1\<rparr>)
              else (Inr (map from_orm posts),
                    \<lparr>db = db1, cache = cache_setitem now c1 user_id posts\<rparr>))"

definition delete_post_from_db_and_cache ::
  "int \<Rightarrow> int \<Rightarrow> world \<Rightarrow> int \<Rightarrow> (exn + bool) \<times> world" where
  "delete_post_from_db_and_cache post_id user_id w now =
     (let (found, db1) = db_select (db w) (\<lambda>p. ident p = post_id \<and> owner_id p = user_id)
      in case found of
           [] \<Rightarrow> (Inl (HTTPException 404 ''Post not found or not owned by the user''),
                  \<lparr>db = db1, cache = cache w\<rparr>)
         | post # _ \<Rightarrow>
             let db2 = db_delete_commit db1 post;
                 (cached_posts, c1) = cache_get now (cache w) user_id
             in if truthy cached_posts
                then (Inr True,
                      \<lparr>db = db2,
                       cache = cache_setitem now c1 user_id
                                 (filter (\<lambda>p. ident p \<noteq> post_id)
                                    (case cached_posts of Some xs \<Rightarrow> xs | None \<Rightarrow> []))\<rparr>)
                else (Inr True, \<lparr>db = db2, cache = c1\<rparr>))"

section \<open>controllers/auth.py\<close>

text \<open>
  A token payload is a dictionary from claim names to values; the service stores the
  subject as a string (\<^verbatim>\<open>str(user.id)\<close>), and a token carries the expiry as a number of
  seconds.
\<close>

datatype jvalue = JStr string | JInt int

type_synonym payload = "(string \<times> jvalue) list"

text \<open>
  Time. A \<^verbatim>\<open>datetime\<close> and a \<^verbatim>\<open>timedelta\<close> have a resolution of one microsecond: a point
  in time is the number of microseconds since the epoch, a duration a number of
  microseconds, both integers. The dictionary \<^verbatim>\<open>create_access_token\<close> hands to the
  token library holds the values of the caller and, under \<^verbatim>\<open>exp\<close>, a \<^verbatim>\<open>datetime\<close>.
\<close>

datatype pvalue = Json jvalue | Datetime int

definition timedelta_minutes :: "int \<Rightarrow> int" where
  "timedelta_minutes m = m * 60 * 1000000"

text \<open>
  Modelled from the spec: the token library (\<^verbatim>\<open>jwt.encode\<close>, \<^verbatim>\<open>jwt.decode\<close>) is external
  and missing from the sources. Sections 4.1 and 6 of the specification: a token is a
  signed, tamper-evident blob encoding the payload, with the fields \<^verbatim>\<open>sub\<close> and \<^verbatim>\<open>exp\<close>
  (absolute expiry, epoch seconds); verification checks the structure, the signature
  computed with the shared secret, and that the expiry has not passed, and reports
  which check failed by the class of the exception it raises. A token string either
  parses into a payload and a signature or is malformed; the signing function of the
  fixed algorithm is the parameter \<open>mac\<close>. The expiry inside a token is in whole epoch
  seconds; the clock it is checked against is in microseconds.
\<close>

datatype token = Token payload string | Malformed string

datatype pyjwt_error = DecodeError | InvalidSignatureError | ExpiredSignatureError

text \<open>
  Modelled from the spec: on encoding, a \<^verbatim>\<open>datetime\<close> under one of the time claims
  becomes a number of whole epoch seconds, the fraction of a second dropped; a
  \<^verbatim>\<open>datetime\<close> anywhere else cannot be serialised, which is a \<^verbatim>\<open>TypeError\<close>.
\<close>

fun encode_claim :: "string \<times> pvalue \<Rightarrow> exn + string \<times> jvalue" where
  "encode_claim (k, Json v) = Inr (k, v)"
| "encode_claim (k, Datetime us) =
     (if k \<in> set [''exp'', ''iat'', ''nbf''] then Inr (k, JInt (us div 1000000))
      else Inl TypeError)"

fun encode_claims :: "(string \<times> pvalue) list \<Rightarrow> exn + payload" where
  "encode_claims [] = Inr []"
| "encode_claims (c # cs) =
     (case encode_claim c of
        Inl e \<Rightarrow> Inl e
      | Inr c' \<Rightarrow> (case encode_claims cs of Inl e \<Rightarrow> Inl e | Inr cs' \<Rightarrow> Inr (c' # cs')))"

text \<open>
  Modelled from the spec: \<^verbatim>\<open>jwt.encode(payload, key, algorithm)\<close> encodes the claims and
  signs the result.
\<close>

definition jwt_encode ::
  "(string \<Rightarrow> payload \<Rightarrow> string) \<Rightarrow> (string \<times> pvalue) list \<Rightarrow> string \<Rightarrow> exn + token" where
  "jwt_encode mac p key =
     (case encode_claims p of
        Inl e \<Rightarrow> Inl e
      | Inr p' \<Rightarrow> Inr (Token p' (mac key p')))"

text \<open>
  Modelled from the spec: \<^verbatim>\<open>jwt.decode(token, key, algorithms)\<close> checks the structure, then
  the signature, then the expiry, and returns the payload when all three pass. A token
  has expired as soon as the clock, in microseconds, has reached the second of its
  expiry.
\<close>

definition jwt_decode ::
  "(string \<Rightarrow> payload \<Rightarrow> string) \<Rightarrow> int \<Rightarrow> token \<Rightarrow> string \<Rightarrow> pyjwt_error + payload" where
  "jwt_decode mac utcnow tok key =
     (case tok of
        Malformed _ \<Rightarrow> Inl DecodeError
      | Token p sg \<Rightarrow>
          if sg \<noteq> mac key p then Inl InvalidSignatureError
          else (case map_of p ''exp'' of
                  None \<Rightarrow> Inr p
                | Some (JStr _) \<Rightarrow> Inl DecodeError
                | Some (JInt e) \<Rightarrow>
                    if e * 1000000 \<le> utcnow then Inl ExpiredSignatureError else Inr p))"

definition SECRET_KEY :: string where
  "SECRET_KEY = ''your_secret_key''"

definition ACCESS_TOKEN_EXPIRE_MINUTES :: int where
  "ACCESS_TOKEN_EXPIRE_MINUTES = 30"

text \<open>
  \<^verbatim>\<open>expires_delta or timedelta(minutes=...)\<close>: a missing delta and a delta of zero are
  both false in Python, and both give the default. \<open>utcnow\<close> is the reading of
  \<^verbatim>\<open>datetime.utcnow()\<close>; the sum is exact, to the microsecond. The function returns what
  \<^verbatim>\<open>jwt.encode\<close> returns, or raises what it raises.
\<close>

definition create_access_token ::
  "(string \<Rightarrow> payload \<Rightarrow> string) \<Rightarrow> int \<Rightarrow> payload \<Rightarrow> int option \<Rightarrow> exn + token" where
  "create_access_token mac utcnow data expires_delta =
     (let to_encode = map (\<lambda>(k, v). (k, Json v)) data;
          expire = utcnow + (case expires_delta of
                               None \<Rightarrow> timedelta_minutes ACCESS_TOKEN_EXPIRE_MINUTES
                             | Some d \<Rightarrow>
                                 if d \<noteq> 0 then d
                                 else timedelta_minutes ACCESS_TOKEN_EXPIRE_MINUTES);
          to_encode = AList.update ''exp'' (Datetime expire) to_encode
      in jwt_encode mac to_encode SECRET_KEY)"

definition decode_access_token ::
  "(string \<Rightarrow> payload \<Rightarrow> string) \<Rightarrow> int \<Rightarrow> token \<Rightarrow> payload option" where
  "decode_access_token mac utcnow tok =
     (case jwt_decode mac utcnow tok SECRET_KEY of
        Inr payload \<Rightarrow> Some payload
      | Inl _ \<Rightarrow> None)"

definition get_current_user ::
  "(string \<Rightarrow> payload \<Rightarrow> string) \<Rightarrow> int \<Rightarrow> token \<Rightarrow> exn + payload" where
  "get_current_user mac utcnow tok =
     (case decode_access_token mac utcnow tok of
        None \<Rightarrow> Inl (HTTPException 401 ''Invalid token'')
      | Some payload \<Rightarrow> Inr payload)"

section \<open>routers/posts.py\<close>

text \<open>
  \<^verbatim>\<open>int(current_user.get("sub"))\<close>: \<^verbatim>\<open>get\<close> gives \<^verbatim>\<open>None\<close> for a missing key, on which
  \<^verbatim>\<open>int\<close> raises \<^verbatim>\<open>TypeError\<close>; on a string that is not a number it raises
  \<^verbatim>\<open>ValueError\<close>. The built-in conversion of a string is the parameter \<open>parse\<close>.
\<close>

definition py_int :: "(string \<Rightarrow> int option) \<Rightarrow> jvalue option \<Rightarrow> exn + int" where
  "py_int parse x =
     (case x of
        None \<Rightarrow> Inl TypeError
      | Some (JInt n) \<Rightarrow> Inr n
      | Some (JStr s) \<Rightarrow> (case parse s of None \<Rightarrow> Inl ValueError | Some n \<Rightarrow> Inr n))"

text \<open>
  The endpoints. The dependency \<^verbatim>\<open>get_current_user\<close> runs first, then the conversion of
  the subject, then the service function; \<open>utcnow\<close> is the wall clock the token is
  checked against, in microseconds, \<open>now\<close> the timer of the cache.
\<close>

definition add_post ::
  "(string \<Rightarrow> payload \<Rightarrow> string) \<Rightarrow> (string \<Rightarrow> int option) \<Rightarrow> post_create \<Rightarrow> request \<Rightarrow> token
     \<Rightarrow> world \<Rightarrow> int \<Rightarrow> int \<Rightarrow> (exn + int) \<times> world" where
  "add_post mac parse post request tok w utcnow now =
     (case get_current_user mac utcnow tok of
        Inl e \<Rightarrow> (Inl e, w)
      | Inr current_user \<Rightarrow>
          (case py_int parse (map_of current_user ''sub'') of
             Inl e \<Rightarrow> (Inl e, w)
           | Inr user_id \<Rightarrow>
               (case add_post_to_db_and_cache post user_id w request now of
                  (Inl e, w') \<Rightarrow> (Inl e, w')
                | (Inr new_post, w') \<Rightarrow> (Inr (ident new_post), w'))))"

definition get_posts ::
  "(string \<Rightarrow> payload \<Rightarrow> string) \<Rightarrow> (string \<Rightarrow> int option) \<Rightarrow> token
     \<Rightarrow> world \<Rightarrow> int \<Rightarrow> int \<Rightarrow> (exn + post list) \<times> world" where
  "get_posts mac parse tok w utcnow now =
     (case get_current_user mac utcnow tok of
        Inl e \<Rightarrow> (Inl e, w)
      | Inr current_user \<Rightarrow>
          (case py_int parse (map_of current_user ''sub'') of
             Inl e \<Rightarrow> (Inl e, w)
           | Inr user_id \<Rightarrow> get_user_posts_from_cache_or_db user_id w now))"

definition delete_post ::
  "(string \<Rightarrow> payload \<Rightarrow> string) \<Rightarrow> (string \<Rightarrow> int option) \<Rightarrow> int \<Rightarrow> token
     \<Rightarrow> world \<Rightarrow> int \<Rightarrow> int \<Rightarrow> (exn + bool \<times> string) \<times> world" where
  "delete_post mac parse post_id tok w utcnow now =
     (case get_current_user mac utcnow tok of
        Inl e \<Rightarrow> (Inl e, w)
      | Inr current_user \<Rightarrow>
          (case py_int parse (map_of current_user ''sub'') of
             Inl e \<Rightarrow> (Inl e, w)
           | Inr user_id \<Rightarrow>
               (case delete_post_from_db_and_cache post_id user_id w now of
                  (Inl e, w') \<Rightarrow> (Inl e, w')
                | (Inr _, w') \<Rightarrow> (Inr (True, ''Post deleted successfully''), w'))))"

section \<open>Sequences of calls\<close>

text \<open>
  The three service calls a request can make, each with its arguments and the reading
  of the timer, and the state a sequence of them leaves. The process starts with an
  empty cache over whatever the database holds.
\<close>

datatype call =
    AddPost post_create int request int
  | ListPosts int int
  | DeletePost int int int

fun step :: "world \<Rightarrow> call \<Rightarrow> world" where
  "step w (AddPost post user_id request now) =
     snd (add_post_to_db_and_cache post user_id w request now)"
| "step w (ListPosts user_id now) = snd (get_user_posts_from_cache_or_db user_id w now)"
| "step w (DeletePost post_id user_id now) =
     snd (delete_post_from_db_and_cache post_id user_id w now)"

definition run :: "call list \<Rightarrow> world \<Rightarrow> world" where
  "run calls w = foldl step w calls"

definition startup :: "database \<Rightarrow> world" where
  "startup d = \<lparr>db = d, cache = []\<rparr>"

text \<open>The owners whose calls in a sequence are deletions.\<close>

fun deleting :: "call \<Rightarrow> int set" where
  "deleting (DeletePost post_id user_id now) = {user_id}"
| "deleting _ = {}"

text \<open>
  The scenario of repeated list calls by one user, at the given timer readings: the
  results in order, and the state left.
\<close>

fun list_calls :: "int \<Rightarrow> world \<Rightarrow> int list \<Rightarrow> (exn + post list) list \<times> world" where
  "list_calls user_id w [] = ([], w)"
| "list_calls user_id w (now # ts) =
     (let (r, w1) = get_user_posts_from_cache_or_db user_id w now;
          (rs, w2) = list_calls user_id w1 ts
      in (r # rs, w2))"

section \<open>Concrete inputs\<close>

text \<open>
  Inputs on which the model is run below. The request body is the sixteen bytes of
  \<^verbatim>\<open>{"text":"hello"}\<close>. In \<open>warm_world\<close> user 1 has added a post and listed the posts, so
  the cache holds the entry of user 1; in \<open>emptied_world\<close> user 1 has then deleted that
  post. In \<open>other_db\<close> the only post belongs to user 2.
\<close>

definition demo_db :: database where
  "demo_db = \<lparr>rows = [], next_id = 1, reads = 0\<rparr>"

definition other_db :: database where
  "other_db = \<lparr>rows = [\<lparr>ident = 1, post_text = ''hello'', owner_id = 2\<rparr>],
                next_id = 2, reads = 0\<rparr>"

definition demo_post :: post_create where
  "demo_post = \<lparr>pc_text = ''hello''\<rparr>"

definition demo_request :: request where
  "demo_request =
     \<lparr>body = [123, 34, 116, 101, 120, 116, 34, 58, 34, 104, 101, 108, 108, 111, 34, 125]\<rparr>"

definition warm_world :: world where
  "warm_world = run [AddPost demo_post 1 demo_request 0, ListPosts 1 0] (startup demo_db)"

definition emptied_world :: world where
  "emptied_world =
     run [AddPost demo_post 1 demo_request 0, ListPosts 1 0, DeletePost 1 1 0] (startup demo_db)"

text \<open>
  A stand-in for the signing function (the key followed by the claim names) and for
  the conversion of a string to an integer (it knows the numerals 1 and 2), to run the
  token functions and the endpoints on concrete inputs.
\<close>

definition demo_mac :: "string \<Rightarrow> payload \<Rightarrow> string" where
  "demo_mac key p = key @ concat (map fst p)"

definition demo_parse :: "string \<Rightarrow> int option" where
  "demo_parse s = (if s = ''1'' then Some 1 else if s = ''2'' then Some 2 else None)"

definition demo_token :: token where
  "demo_token =
     (case create_access_token demo_mac 0 [(''sub'', JStr ''1'')] None of
        Inr tok \<Rightarrow> tok
      | Inl e \<Rightarrow> Malformed [])"

text \<open>
  Two short-lived tokens for user 1: one for one second, issued 0.9 seconds after the
  epoch, and one for half a second, issued 0.2 seconds after the epoch.
\<close>

definition one_second_token :: token where
  "one_second_token =
     (case create_access_token demo_mac 900000 [(''sub'', JStr ''1'')] (Some 1000000) of
        Inr tok \<Rightarrow> tok
      | Inl e \<Rightarrow> Malformed [])"

definition half_second_token :: token where
  "half_second_token =
     (case create_access_token demo_mac 200000 [(''sub'', JStr ''1'')] (Some 500000) of
        Inr tok \<Rightarrow> tok
      | Inl e \<Rightarrow> Malformed [])"

section \<open>Facts about the model\<close>

subsection \<open>Responses and lookups\<close>

lemma from_orm_id: "from_orm p = p"
  by (simp add: from_orm_def)

lemma map_from_orm: "map from_orm xs = xs"
  by (induction xs) (simp_all add: from_orm_id)

lemma map_of_filter_other: "k \<noteq> u \<Longrightarrow> map_of (filter (\<lambda>l. fst l \<noteq> u) c) k = map_of c k"
  by (induction c) auto

lemma map_of_filter_self: "map_of (filter (\<lambda>l. fst l \<noteq> u) c) u = None"
  by (induction c) auto

lemma map_of_moved:
  "map_of (filter (\<lambda>l. fst l \<noteq> u) c @ [(u, y)]) k = (if k = u then Some y else map_of c k)"
  by (simp add: map_of_append map_add_def map_of_filter_self map_of_filter_other split: option.splits)

subsection \<open>The cache operations\<close>

lemma cache_get_miss: "fst (cache_get now c k) = None \<Longrightarrow> cache_get now c k = (None, c)"
  by (auto simp: cache_get_def split: option.splits if_splits)

lemma cache_get_hit:
  "fst (cache_get now c k) = Some v \<Longrightarrow>
     \<exists>e. map_of c k = Some (v, e) \<and> now < e \<and>
         cache_get now c k = (Some v, filter (\<lambda>l. fst l \<noteq> k) c @ [(k, v, e)])"
  by (auto simp: cache_get_def split: option.splits if_splits)

lemma cache_get_absent: "k \<notin> fst ` set c \<Longrightarrow> cache_get now c k = (None, c)"
  by (simp add: cache_get_def map_of_eq_None_iff[THEN iffD2])

lemma cache_get_fresh:
  "map_of c k = Some (v, e) \<Longrightarrow> now < e \<Longrightarrow>
     cache_get now c k = (Some v, filter (\<lambda>l. fst l \<noteq> k) c @ [(k, v, e)])"
  by (simp add: cache_get_def)

lemma cache_get_subset: "set (snd (cache_get now c k)) \<subseteq> set c"
  by (auto simp: cache_get_def split: option.splits if_splits dest: map_of_SomeD)

lemma cache_get_hit_mem: "fst (cache_get now c k) = Some v \<Longrightarrow> \<exists>e. (k, v, e) \<in> set c"
  using cache_get_hit[of now c k v] by (blast dest: map_of_SomeD)

lemma cache_append_filter:
  "cache_append (filter (\<lambda>l. fst l \<noteq> u) c) u x = filter (\<lambda>l. fst l \<noteq> u) c"
  by (induction c) (auto simp: cache_append_def)

lemma cache_append_moved:
  "cache_append (filter (\<lambda>l. fst l \<noteq> u) c @ [(u, v, e)]) u x
     = filter (\<lambda>l. fst l \<noteq> u) c @ [(u, v @ [x], e)]"
  using cache_append_filter[of u c x] by (simp add: cache_append_def)

lemma cache_append_links:
  "(k', v', e') \<in> set (cache_append c k x) \<Longrightarrow>
     (k', v', e') \<in> set c \<or> (k' = k \<and> (\<exists>v. v' = v @ [x] \<and> (k, v, e') \<in> set c))"
  by (auto simp: cache_append_def split: if_splits)

lemma cache_setitem_lookup: "map_of (cache_setitem now c k v) k = Some (v, now + ttl)"
proof (cases "k \<in> fst ` set (expire now c)")
  case True
  then show ?thesis
    unfolding cache_setitem_def Let_def by (simp only: if_True) (subst map_of_moved, simp)
next
  case False
  have "set (drop (length (expire now c) + 1 - maxsize) (expire now c)) \<subseteq> set (expire now c)"
    by (rule set_drop_subset)
  with False have "k \<notin> fst ` set (drop (length (expire now c) + 1 - maxsize) (expire now c))"
    by blast
  then have "map_of (drop (length (expire now c) + 1 - maxsize) (expire now c)) k = None"
    by (simp add: map_of_eq_None_iff)
  with False show ?thesis
    by (simp add: cache_setitem_def Let_def map_add_def)
qed

lemma cache_setitem_subset: "set (cache_setitem now c k v) \<subseteq> insert (k, v, now + ttl) (set c)"
  by (auto simp: cache_setitem_def expire_def Let_def dest: in_set_dropD)

subsection \<open>What one call does to the cache\<close>

lemma step_cache_cases:
  assumes "(k, v, e) \<in> set (cache (step w c))"
  shows "(k, v, e) \<in> set (cache w) \<or>
         (\<exists>post request now. c = AddPost post k request now \<and>
            (\<exists>v0. v = v0 @ [\<lparr>ident = next_id (db w), post_text = pc_text post, owner_id = k\<rparr>] \<and>
                  (k, v0, e) \<in> set (cache w))) \<or>
         (\<exists>now. c = ListPosts k now \<and> v \<noteq> [] \<and>
            v = filter (\<lambda>p. owner_id p = k) (rows (db w))) \<or>
         (\<exists>post_id now v0 e0. c = DeletePost post_id k now \<and> (k, v0, e0) \<in> set (cache w) \<and>
            v = filter (\<lambda>p. ident p \<noteq> post_id) v0)"
proof (cases c)
  case (AddPost post user_id request now)
  obtain r c1 where g: "cache_get now (cache w) user_id = (r, c1)"
    by (cases "cache_get now (cache w) user_id")
  have sub: "set c1 \<subseteq> set (cache w)"
    using cache_get_subset[of now "cache w" user_id] by (simp add: g)
  show ?thesis
  proof (cases "length (body request) > 1000000")
    case True
    then show ?thesis
      using assms by (simp add: AddPost add_post_to_db_and_cache_def)
  next
    case small: False
    show ?thesis
    proof (cases "truthy r")
      case True
      then have "cache (step w c)
                   = cache_append c1 user_id
                       \<lparr>ident = next_id (db w), post_text = pc_text post, owner_id = user_id\<rparr>"
        using small
        by (simp add: AddPost add_post_to_db_and_cache_def db_add_commit_def g Let_def from_orm_id)
      with assms sub
        cache_append_links[of k v e c1 user_id
          "\<lparr>ident = next_id (db w), post_text = pc_text post, owner_id = user_id\<rparr>"]
      show ?thesis
        by (auto simp: AddPost)
    next
      case False
      then have "cache (step w c) = c1"
        using small
        by (simp add: AddPost add_post_to_db_and_cache_def db_add_commit_def g Let_def)
      with assms sub show ?thesis by auto
    qed
  qed
next
  case (ListPosts user_id now)
  obtain r c1 where g: "cache_get now (cache w) user_id = (r, c1)"
    by (cases "cache_get now (cache w) user_id")
  have sub: "set c1 \<subseteq> set (cache w)"
    using cache_get_subset[of now "cache w" user_id] by (simp add: g)
  let ?posts = "filter (\<lambda>p. owner_id p = user_id) (rows (db w))"
  show ?thesis
  proof (cases "truthy r \<or> ?posts = []")
    case True
    then have "cache (step w c) = c1"
      by (auto simp: ListPosts get_user_posts_from_cache_or_db_def db_select_def g)
    with assms sub show ?thesis by auto
  next
    case False
    then have "cache (step w c) = cache_setitem now c1 user_id ?posts"
      by (simp add: ListPosts get_user_posts_from_cache_or_db_def db_select_def g)
    with assms cache_setitem_subset[of now c1 user_id ?posts] sub False show ?thesis
      by (auto simp: ListPosts)
  qed
next
  case (DeletePost post_id user_id now)
  obtain r c1 where g: "cache_get now (cache w) user_id = (r, c1)"
    by (cases "cache_get now (cache w) user_id")
  have sub: "set c1 \<subseteq> set (cache w)"
    using cache_get_subset[of now "cache w" user_id] by (simp add: g)
  let ?found = "filter (\<lambda>p. ident p = post_id \<and> owner_id p = user_id) (rows (db w))"
  show ?thesis
  proof (cases "?found")
    case Nil
    then have "cache (step w c) = cache w"
      by (simp add: DeletePost delete_post_from_db_and_cache_def db_select_def)
    with assms show ?thesis by simp
  next
    case (Cons p ps)
    show ?thesis
    proof (cases r)
      case None
      then have "cache (step w c) = c1"
        by (simp add: DeletePost delete_post_from_db_and_cache_def db_select_def Cons g Let_def)
      with assms sub show ?thesis by auto
    next
      case (Some v0)
      then obtain e0 where m: "(user_id, v0, e0) \<in> set (cache w)"
        using cache_get_hit_mem[of now "cache w" user_id v0] by (auto simp: g)
      show ?thesis
      proof (cases "v0 = []")
        case True
        then have "cache (step w c) = c1"
          by (simp add: DeletePost delete_post_from_db_and_cache_def db_select_def Cons g Some Let_def)
        with assms sub show ?thesis by auto
      next
        case False
        then have "cache (step w c)
                     = cache_setitem now c1 user_id (filter (\<lambda>p. ident p \<noteq> post_id) v0)"
          by (simp add: DeletePost delete_post_from_db_and_cache_def db_select_def Cons g Some Let_def)
        with assms cache_setitem_subset[of now c1 user_id "filter (\<lambda>p. ident p \<noteq> post_id) v0"]
          sub m show ?thesis
          by (auto simp: DeletePost)
      qed
    qed
  qed
qed

lemma run_snoc: "run (calls @ [c]) w = step (run calls w) c"
  by (simp add: run_def)

lemma step_empty_link:
  assumes "(k, [], e) \<in> set (cache (step w c))"
  shows "(k, [], e) \<in> set (cache w) \<or> k \<in> deleting c"
  using step_cache_cases[OF assms] by auto

lemma run_empty_link:
  "(k, [], e) \<in> set (cache (run calls w)) \<Longrightarrow>
     (k, [], e) \<in> set (cache w) \<or> k \<in> \<Union> (deleting ` set calls)"
proof (induction calls arbitrary: e rule: rev_induct)
  case Nil
  then show ?case by (simp add: run_def)
next
  case (snoc c calls)
  from snoc.prems have "(k, [], e) \<in> set (cache (step (run calls w) c))"
    by (simp only: run_snoc)
  from step_empty_link[OF this] show ?case
    using snoc.IH by auto
qed

lemma step_owned:
  assumes inv: "\<forall>(k, v, e) \<in> set (cache w). \<forall>p \<in> set v. owner_id p = k"
  shows "\<forall>(k, v, e) \<in> set (cache (step w c)). \<forall>p \<in> set v. owner_id p = k"
proof (clarify)
  fix k v e p
  assume l: "(k, v, e) \<in> set (cache (step w c))" and p: "p \<in> set v"
  from step_cache_cases[OF l] inv p show "owner_id p = k"
    by (elim disjE exE conjE) (fastforce)+
qed

lemma run_owned:
  assumes inv: "\<forall>(k, v, e) \<in> set (cache w). \<forall>p \<in> set v. owner_id p = k"
  shows "\<forall>(k, v, e) \<in> set (cache (run calls w)). \<forall>p \<in> set v. owner_id p = k"
proof (induction calls rule: rev_induct)
  case Nil
  then show ?case using inv by (simp add: run_def)
next
  case (snoc c calls)
  then show ?case
    by (simp only: run_snoc) (rule step_owned)
qed

lemma list_owned:
  assumes inv: "\<forall>(k, v, e) \<in> set (cache w). \<forall>p \<in> set v. owner_id p = k"
    and ok: "get_user_posts_from_cache_or_db user_id w now = (Inr posts, w')"
  shows "\<forall>p \<in> set posts. owner_id p = user_id"
proof (cases "fst (cache_get now (cache w) user_id)")
  case None
  then have g: "cache_get now (cache w) user_id = (None, cache w)"
    by (rule cache_get_miss)
  from ok have "posts = filter (\<lambda>p. owner_id p = user_id) (rows (db w))"
    by (simp add: get_user_posts_from_cache_or_db_def g db_select_def map_from_orm
        split: if_splits)
  then show ?thesis by simp
next
  case (Some xs)
  from cache_get_hit[OF Some] obtain e where
    m: "map_of (cache w) user_id = Some (xs, e)"
    and g: "cache_get now (cache w) user_id
              = (Some xs, filter (\<lambda>l. fst l \<noteq> user_id) (cache w) @ [(user_id, xs, e)])"
    by blast
  from m have "(user_id, xs, e) \<in> set (cache w)"
    by (rule map_of_SomeD)
  with inv have own: "\<forall>p \<in> set xs. owner_id p = user_id"
    by blast
  from ok have "posts = xs \<or> posts = filter (\<lambda>p. owner_id p = user_id) (rows (db w))"
    by (simp add: get_user_posts_from_cache_or_db_def g db_select_def map_from_orm
        split: if_splits)
  with own show ?thesis by auto
qed

lemma list_zero_posts_step:
  assumes cold: "user_id \<notin> fst ` set (cache w)"
    and none: "\<forall>p \<in> set (rows (db w)). owner_id p \<noteq> user_id"
  shows "get_user_posts_from_cache_or_db user_id w now
           = (Inl (HTTPException 404 ''No posts found''),
              \<lparr>db = (db w)\<lparr>reads := reads (db w) + 1\<rparr>, cache = cache w\<rparr>)"
proof -
  have "filter (\<lambda>p. owner_id p = user_id) (rows (db w)) = []"
    using none by (simp add: filter_empty_conv)
  then show ?thesis
    by (simp add: get_user_posts_from_cache_or_db_def cache_get_absent[OF cold] db_select_def)
qed

subsection \<open>The concrete inputs, evaluated\<close>

lemmas model_defs =
  add_post_to_db_and_cache_def get_user_posts_from_cache_or_db_def
  delete_post_from_db_and_cache_def db_add_commit_def db_select_def db_delete_commit_def
  cache_get_def cache_setitem_def cache_append_def expire_def from_orm_def maxsize_def ttl_def
  run_def startup_def Let_def

lemmas fixture_defs =
  demo_db_def other_db_def demo_post_def demo_request_def warm_world_def emptied_world_def

lemmas eval_defs = fixture_defs model_defs

lemmas auth_defs =
  get_current_user_def decode_access_token_def jwt_decode_def jwt_encode_def
  create_access_token_def SECRET_KEY_def ACCESS_TOKEN_EXPIRE_MINUTES_def timedelta_minutes_def
  demo_mac_def demo_token_def one_second_token_def half_second_token_def Let_def





lemma warm_world_eq:
  "warm_world = \<lparr>db = \<lparr>rows = [\<lparr>ident = 1, post_text = ''hello'', owner_id = 1\<rparr>],
                         next_id = 2, reads = 1\<rparr>,
                  cache = [(1, [\<lparr>ident = 1, post_text = ''hello'', owner_id = 1\<rparr>], 300)]\<rparr>"
  by (simp add: fixture_defs model_defs del: set_filter)

lemma emptied_world_eq:
  "emptied_world = \<lparr>db = \<lparr>rows = [], next_id = 2, reads = 2\<rparr>, cache = [(1, [], 300)]\<rparr>"
  by (simp add: fixture_defs model_defs del: set_filter)

section \<open>The cache in front of the store\<close>

subsection \<open>Adding, then listing\<close>

text \<open>
  C1, as amended. When the cache entry of an owner is present, unexpired and holds at
  least one post, \<^verbatim>\<open>add_post_to_db_and_cache\<close> with a body within the size limit followed
  at once by \<^verbatim>\<open>get_user_posts_from_cache_or_db\<close> for the same owner returns the cached
  posts followed by the newly created post, and the second call does not read the store:
  the counter of reads is the same before and after it.
\<close>

theorem add_then_list_served_from_cache:
  assumes hit: "fst (cache_get now (cache w) user_id) = Some xs"
    and warm: "xs \<noteq> []"
    and small: "length (body request) \<le> 1000000"
  shows "\<exists>new_post w1 w2.
           add_post_to_db_and_cache post user_id w request now = (Inr new_post, w1) \<and>
           new_post = \<lparr>ident = next_id (db w), post_text = pc_text post, owner_id = user_id\<rparr> \<and>
           get_user_posts_from_cache_or_db user_id w1 now = (Inr (xs @ [new_post]), w2) \<and>
           new_post \<in> set (xs @ [new_post]) \<and>
           reads (db w2) = reads (db w1)"
proof -
  from cache_get_hit[OF hit] obtain e where
    e: "now < e"
    and g: "cache_get now (cache w) user_id
              = (Some xs, filter (\<lambda>l. fst l \<noteq> user_id) (cache w) @ [(user_id, xs, e)])"
    by blast
  define new_post where
    "new_post = \<lparr>ident = next_id (db w), post_text = pc_text post, owner_id = user_id\<rparr>"
  define d1 where
    "d1 = (db w)\<lparr>rows := rows (db w) @ [new_post], next_id := next_id (db w) + 1\<rparr>"
  define c2 where
    "c2 = filter (\<lambda>l. fst l \<noteq> user_id) (cache w) @ [(user_id, xs @ [new_post], e)]"
  have add: "add_post_to_db_and_cache post user_id w request now
               = (Inr new_post, \<lparr>db = d1, cache = c2\<rparr>)"
    using small warm
    by (simp add: add_post_to_db_and_cache_def db_add_commit_def g cache_append_moved
        from_orm_id new_post_def d1_def c2_def Let_def)
  have look: "map_of c2 user_id = Some (xs @ [new_post], e)"
    unfolding c2_def by (subst map_of_moved) simp
  have g2: "cache_get now c2 user_id
              = (Some (xs @ [new_post]), filter (\<lambda>l. fst l \<noteq> user_id) c2 @ [(user_id, xs @ [new_post], e)])"
    by (rule cache_get_fresh[OF look e])
  have lst: "get_user_posts_from_cache_or_db user_id \<lparr>db = d1, cache = c2\<rparr> now
               = (Inr (xs @ [new_post]),
                  \<lparr>db = d1, cache = filter (\<lambda>l. fst l \<noteq> user_id) c2 @ [(user_id, xs @ [new_post], e)]\<rparr>)"
    by (simp add: get_user_posts_from_cache_or_db_def g2 map_from_orm from_orm_id)
  show ?thesis
    using add lst new_post_def by auto
qed

text \<open>
  C1, the amended statement on a concrete input: in \<open>warm_world\<close> user 1 has one cached
  post; after adding a second one the list call returns both and reads nothing.
\<close>

theorem add_then_list_served_from_cache_witness:
  "fst (cache_get 0 (cache warm_world) 1)
     = Some [\<lparr>ident = 1, post_text = ''hello'', owner_id = 1\<rparr>] \<and>
   fst (get_user_posts_from_cache_or_db 1
          (snd (add_post_to_db_and_cache demo_post 1 warm_world demo_request 0)) 0)
     = Inr [\<lparr>ident = 1, post_text = ''hello'', owner_id = 1\<rparr>,
            \<lparr>ident = 2, post_text = ''hello'', owner_id = 1\<rparr>] \<and>
   reads (db (snd (get_user_posts_from_cache_or_db 1
                     (snd (add_post_to_db_and_cache demo_post 1 warm_world demo_request 0)) 0)))
     = reads (db (snd (add_post_to_db_and_cache demo_post 1 warm_world demo_request 0)))"
proof -
  have h1: "fst (cache_get 0 (cache warm_world) 1)
              = Some [\<lparr>ident = 1, post_text = ''hello'', owner_id = 1\<rparr>]"
    by (simp add: warm_world_eq cache_get_def)
  have h2: "[\<lparr>ident = 1, post_text = ''hello'', owner_id = 1\<rparr>] \<noteq> []"
    by simp
  have h3: "length (body demo_request) \<le> 1000000"
    by (simp add: demo_request_def)
  from add_then_list_served_from_cache[OF h1 h2 h3, of demo_post]
  obtain new_post w1 w2 where
    "add_post_to_db_and_cache demo_post 1 warm_world demo_request 0 = (Inr new_post, w1)"
    "new_post = \<lparr>ident = next_id (db warm_world), post_text = pc_text demo_post, owner_id = 1\<rparr>"
    "get_user_posts_from_cache_or_db 1 w1 0
       = (Inr ([\<lparr>ident = 1, post_text = ''hello'', owner_id = 1\<rparr>] @ [new_post]), w2)"
    "reads (db w2) = reads (db w1)"
    by blast
  then show ?thesis
    using h1 by (simp add: warm_world_eq demo_post_def)
qed

text \<open>
  C1 as stated fails where the entry is present but holds the empty list: in
  \<open>emptied_world\<close> the lookup for user 1 returns the empty list, the add succeeds, and
  the list call that follows returns the new post but reads the store once.
\<close>

theorem add_then_list_empty_entry_reads_store:
  "fst (cache_get 0 (cache emptied_world) 1) = Some [] \<and>
   fst (add_post_to_db_and_cache demo_post 1 emptied_world demo_request 0)
     = Inr \<lparr>ident = 2, post_text = ''hello'', owner_id = 1\<rparr> \<and>
   fst (get_user_posts_from_cache_or_db 1
          (snd (add_post_to_db_and_cache demo_post 1 emptied_world demo_request 0)) 0)
     = Inr [\<lparr>ident = 2, post_text = ''hello'', owner_id = 1\<rparr>] \<and>
   reads (db (snd (get_user_posts_from_cache_or_db 1
                     (snd (add_post_to_db_and_cache demo_post 1 emptied_world demo_request 0)) 0)))
     = reads (db (snd (add_post_to_db_and_cache demo_post 1 emptied_world demo_request 0))) + 1"
  by (simp add: emptied_world_eq demo_post_def demo_request_def model_defs del: set_filter)

subsection \<open>Listing without posts\<close>

text \<open>
  C2. For a user with no row in the table and no cache entry, every call of
  \<^verbatim>\<open>get_user_posts_from_cache_or_db\<close> in a series (at any timer readings) raises the 404
  "No posts found", the cache stays as it was, and each call reads the store once: after
  the series the counter of reads has grown by the number of calls.
\<close>

theorem list_zero_posts_never_cached:
  assumes cold: "user_id \<notin> fst ` set (cache w)"
    and none: "\<forall>p \<in> set (rows (db w)). owner_id p \<noteq> user_id"
  shows "\<exists>w'. list_calls user_id w ts
                 = (replicate (length ts) (Inl (HTTPException 404 ''No posts found'')), w') \<and>
              cache w' = cache w \<and> rows (db w') = rows (db w) \<and>
              reads (db w') = reads (db w) + length ts"
  using assms
proof (induction ts arbitrary: w)
  case Nil
  then show ?case by simp
next
  case (Cons now ts)
  let ?w1 = "\<lparr>db = (db w)\<lparr>reads := reads (db w) + 1\<rparr>, cache = cache w\<rparr>"
  have s: "get_user_posts_from_cache_or_db user_id w now
             = (Inl (HTTPException 404 ''No posts found''), ?w1)"
    using Cons.prems by (rule list_zero_posts_step)
  have "user_id \<notin> fst ` set (cache ?w1)" and "\<forall>p \<in> set (rows (db ?w1)). owner_id p \<noteq> user_id"
    using Cons.prems by simp_all
  from Cons.IH[OF this] obtain w' where
    r: "list_calls user_id ?w1 ts
          = (replicate (length ts) (Inl (HTTPException 404 ''No posts found'')), w')"
    and k: "cache w' = cache ?w1" "rows (db w') = rows (db ?w1)"
      "reads (db w') = reads (db ?w1) + length ts"
    by blast
  show ?case
    using r k by (simp add: s)
qed

text \<open>
  C2 on a concrete input: user 1 owns nothing in \<open>other_db\<close>; two list calls both fail
  and both read the store.
\<close>

theorem list_zero_posts_never_cached_witness:
  "fst (list_calls 1 (startup other_db) [0, 5])
     = [Inl (HTTPException 404 ''No posts found''), Inl (HTTPException 404 ''No posts found'')] \<and>
   cache (snd (list_calls 1 (startup other_db) [0, 5])) = [] \<and>
   reads (db (snd (list_calls 1 (startup other_db) [0, 5]))) = 2"
proof -
  have h1: "1 \<notin> fst ` set (cache (startup other_db))"
    by (simp add: startup_def)
  have h2: "\<forall>p \<in> set (rows (db (startup other_db))). owner_id p \<noteq> 1"
    by (simp add: startup_def other_db_def)
  from list_zero_posts_never_cached[OF h1 h2, of "[0, 5]"] show ?thesis
    by (auto simp: startup_def other_db_def)
qed

subsection \<open>Empty cache entries\<close>

text \<open>
  C3, as amended. After every sequence of add, list and delete calls on a process that
  started with an empty cache, a cache entry holds the empty list only for an owner who
  made a delete call in that sequence: adding and listing never store an empty list.
\<close>

theorem empty_entry_only_after_delete:
  assumes "(k, [], e) \<in> set (cache (run calls (startup d)))"
  shows "k \<in> \<Union> (deleting ` set calls)"
  using run_empty_link[OF assms] by (simp add: startup_def)

text \<open>
  C3, the amended statement on a concrete input: the entry of user 1 is empty after the
  sequence add, list, delete, and user 1 made the delete call.
\<close>

theorem empty_entry_only_after_delete_witness:
  "(1, [], 300) \<in> set (cache (run [AddPost demo_post 1 demo_request 0, ListPosts 1 0,
                                     DeletePost 1 1 0] (startup demo_db))) \<and>
   1 \<in> \<Union> (deleting ` set [AddPost demo_post 1 demo_request 0, ListPosts 1 0, DeletePost 1 1 0])"
proof -
  have h: "(1, [], 300) \<in> set (cache (run [AddPost demo_post 1 demo_request 0, ListPosts 1 0,
                                              DeletePost 1 1 0] (startup demo_db)))"
    by (simp add: emptied_world_def[symmetric] emptied_world_eq)
  from empty_entry_only_after_delete[OF h] h show ?thesis
    by blast
qed

text \<open>
  C3 as stated fails: after user 1 adds a post, lists the posts and deletes the post, the
  cache maps user 1 to the empty list.
\<close>

theorem delete_leaves_empty_entry:
  "map_of (cache (run [AddPost demo_post 1 demo_request 0, ListPosts 1 0, DeletePost 1 1 0]
                    (startup demo_db))) 1
     = Some ([], 300)"
  by (simp add: emptied_world_def[symmetric] emptied_world_eq)

subsection \<open>Listing from a cold cache\<close>

text \<open>
  C4. For an owner with at least one row in the table and no cache entry,
  \<^verbatim>\<open>get_user_posts_from_cache_or_db\<close> reads the store once, returns the owner's rows and
  leaves them in the cache under the owner's key; a second call at the same timer
  reading returns the same posts and does not read the store.
\<close>

theorem cold_list_populates_cache:
  assumes cold: "user_id \<notin> fst ` set (cache w)"
    and some: "\<exists>p \<in> set (rows (db w)). owner_id p = user_id"
  shows "\<exists>posts w1 w2.
           posts = filter (\<lambda>p. owner_id p = user_id) (rows (db w)) \<and>
           get_user_posts_from_cache_or_db user_id w now = (Inr posts, w1) \<and>
           reads (db w1) = reads (db w) + 1 \<and>
           fst (cache_get now (cache w1) user_id) = Some posts \<and>
           get_user_posts_from_cache_or_db user_id w1 now = (Inr posts, w2) \<and>
           reads (db w2) = reads (db w1)"
proof -
  define posts where "posts = filter (\<lambda>p. owner_id p = user_id) (rows (db w))"
  define d1 where "d1 = (db w)\<lparr>reads := reads (db w) + 1\<rparr>"
  define c1 where "c1 = cache_setitem now (cache w) user_id posts"
  have ne: "posts \<noteq> []"
    using some by (simp add: posts_def filter_empty_conv)
  have first: "get_user_posts_from_cache_or_db user_id w now = (Inr posts, \<lparr>db = d1, cache = c1\<rparr>)"
    using ne
    by (simp add: get_user_posts_from_cache_or_db_def cache_get_absent[OF cold] db_select_def
        posts_def[symmetric] d1_def c1_def map_from_orm)
  have look: "map_of c1 user_id = Some (posts, now + ttl)"
    unfolding c1_def by (rule cache_setitem_lookup)
  have fresh: "now < now + ttl"
    by (simp add: ttl_def)
  note g = cache_get_fresh[OF look fresh]
  have second: "get_user_posts_from_cache_or_db user_id \<lparr>db = d1, cache = c1\<rparr> now
                  = (Inr posts,
                     \<lparr>db = d1, cache = filter (\<lambda>l. fst l \<noteq> user_id) c1 @ [(user_id, posts, now + ttl)]\<rparr>)"
    using ne by (simp add: get_user_posts_from_cache_or_db_def g map_from_orm)
  show ?thesis
    using first second g by (simp add: posts_def[symmetric] d1_def)
qed

text \<open>
  C4 on a concrete input: user 2 owns the one post of \<open>other_db\<close>; the first list call
  reads the store, the second does not.
\<close>

theorem cold_list_populates_cache_witness:
  "fst (get_user_posts_from_cache_or_db 2 (startup other_db) 0)
     = Inr [\<lparr>ident = 1, post_text = ''hello'', owner_id = 2\<rparr>] \<and>
   reads (db (snd (get_user_posts_from_cache_or_db 2 (startup other_db) 0))) = 1 \<and>
   fst (get_user_posts_from_cache_or_db 2
          (snd (get_user_posts_from_cache_or_db 2 (startup other_db) 0)) 0)
     = Inr [\<lparr>ident = 1, post_text = ''hello'', owner_id = 2\<rparr>] \<and>
   reads (db (snd (get_user_posts_from_cache_or_db 2
                     (snd (get_user_posts_from_cache_or_db 2 (startup other_db) 0)) 0))) = 1"
proof -
  have h1: "2 \<notin> fst ` set (cache (startup other_db))"
    by (simp add: startup_def)
  have h2: "\<exists>p \<in> set (rows (db (startup other_db))). owner_id p = 2"
    by (simp add: startup_def other_db_def)
  from cold_list_populates_cache[OF h1 h2, of 0] show ?thesis
    by (auto simp: startup_def other_db_def)
qed

section \<open>Ownership and limits\<close>

subsection \<open>Deleting what is not one's own\<close>

text \<open>
  C5. When no row has both the given id and the caller as owner (the id does not exist,
  or its post belongs to someone else), \<^verbatim>\<open>delete_post_from_db_and_cache\<close> raises the one
  404 "Post not found or not owned by the user", and the rows of the table and the cache
  are left as they were.
\<close>

theorem delete_foreign_or_missing_post:
  assumes "\<forall>p \<in> set (rows (db w)). ident p = post_id \<longrightarrow> owner_id p \<noteq> user_id"
  shows "\<exists>w'. delete_post_from_db_and_cache post_id user_id w now
                 = (Inl (HTTPException 404 ''Post not found or not owned by the user''), w') \<and>
              rows (db w') = rows (db w) \<and> next_id (db w') = next_id (db w) \<and>
              cache w' = cache w"
proof -
  have "filter (\<lambda>p. ident p = post_id \<and> owner_id p = user_id) (rows (db w)) = []"
    using assms by (auto simp: filter_empty_conv)
  then show ?thesis
    by (simp add: delete_post_from_db_and_cache_def db_select_def)
qed

text \<open>
  C5 on a concrete input: user 1 deleting post 1 of user 2, and user 2 deleting the
  missing post 7, get the same exception; the post of user 2 is still in the table.
\<close>

theorem delete_foreign_or_missing_post_witness:
  "fst (delete_post_from_db_and_cache 1 1 (startup other_db) 0)
     = Inl (HTTPException 404 ''Post not found or not owned by the user'') \<and>
   rows (db (snd (delete_post_from_db_and_cache 1 1 (startup other_db) 0)))
     = [\<lparr>ident = 1, post_text = ''hello'', owner_id = 2\<rparr>] \<and>
   fst (delete_post_from_db_and_cache 7 2 (startup other_db) 0)
     = Inl (HTTPException 404 ''Post not found or not owned by the user'')"
proof -
  have h1: "\<forall>p \<in> set (rows (db (startup other_db))). ident p = 1 \<longrightarrow> owner_id p \<noteq> 1"
    by (simp add: startup_def other_db_def)
  have h2: "\<forall>p \<in> set (rows (db (startup other_db))). ident p = 7 \<longrightarrow> owner_id p \<noteq> 2"
    by (simp add: startup_def other_db_def)
  from delete_foreign_or_missing_post[OF h1, of 0] delete_foreign_or_missing_post[OF h2, of 0]
  show ?thesis
    by (auto simp: startup_def other_db_def)
qed

subsection \<open>The size limit\<close>

text \<open>
  C6. \<^verbatim>\<open>add_post_to_db_and_cache\<close> raises the 413 "Payload too large" exactly when the
  body is longer than 1,000,000 bytes; when it does, the database and the cache are
  left untouched; otherwise it returns the new post.
\<close>

theorem payload_limit:
  "(fst (add_post_to_db_and_cache post user_id w request now)
      = Inl (HTTPException 413 ''Payload too large'')
    \<longleftrightarrow> length (body request) > 1000000) \<and>
   (length (body request) > 1000000 \<longrightarrow>
      snd (add_post_to_db_and_cache post user_id w request now) = w) \<and>
   (length (body request) \<le> 1000000 \<longrightarrow>
      fst (add_post_to_db_and_cache post user_id w request now)
        = Inr \<lparr>ident = next_id (db w), post_text = pc_text post, owner_id = user_id\<rparr>)"
  by (simp add: add_post_to_db_and_cache_def db_add_commit_def Let_def split: prod.splits)

text \<open>
  C6 on concrete inputs: a body of 1,000,001 bytes is refused and nothing changes, a
  body of exactly 1,000,000 bytes is accepted.
\<close>

theorem payload_limit_witness:
  "fst (add_post_to_db_and_cache demo_post 1 (startup demo_db) \<lparr>body = replicate 1000001 0\<rparr> 0)
     = Inl (HTTPException 413 ''Payload too large'') \<and>
   snd (add_post_to_db_and_cache demo_post 1 (startup demo_db) \<lparr>body = replicate 1000001 0\<rparr> 0)
     = startup demo_db \<and>
   fst (add_post_to_db_and_cache demo_post 1 (startup demo_db) \<lparr>body = replicate 1000000 0\<rparr> 0)
     = Inr \<lparr>ident = 1, post_text = ''hello'', owner_id = 1\<rparr>"
  using payload_limit[of demo_post 1 "startup demo_db" "\<lparr>body = replicate 1000001 0\<rparr>" 0]
    payload_limit[of demo_post 1 "startup demo_db" "\<lparr>body = replicate 1000000 0\<rparr>" 0]
  by (simp add: startup_def demo_db_def demo_post_def)

section \<open>Tokens\<close>

subsection \<open>One outcome for every failure\<close>

text \<open>
  C7. Whatever exception the decoding of a token raises, \<^verbatim>\<open>decode_access_token\<close> returns
  \<^verbatim>\<open>None\<close> and \<^verbatim>\<open>get_current_user\<close> raises the same 401 "Invalid token"; so it does for a
  malformed token, for a signature that does not match, and for an expiry (in seconds)
  that the clock (in microseconds) has reached.
\<close>

theorem verification_failures_uniform:
  "(jwt_decode mac utcnow tok SECRET_KEY = Inl e \<longrightarrow>
      decode_access_token mac utcnow tok = None \<and>
      get_current_user mac utcnow tok = Inl (HTTPException 401 ''Invalid token'')) \<and>
   get_current_user mac utcnow (Malformed s) = Inl (HTTPException 401 ''Invalid token'') \<and>
   (sg \<noteq> mac SECRET_KEY p \<longrightarrow>
      get_current_user mac utcnow (Token p sg) = Inl (HTTPException 401 ''Invalid token'')) \<and>
   (map_of p ''exp'' = Some (JInt x) \<and> x * 1000000 \<le> utcnow \<longrightarrow>
      get_current_user mac utcnow (Token p sg) = Inl (HTTPException 401 ''Invalid token''))"
  by (simp add: get_current_user_def decode_access_token_def jwt_decode_def)

text \<open>
  C7 on concrete inputs: a malformed token, a forged one and an expired one fail for
  three different reasons in the library and give the same exception.
\<close>

theorem verification_failures_uniform_witness:
  "jwt_decode demo_mac 0 (Malformed ''not.a.token'') SECRET_KEY = Inl DecodeError \<and>
   jwt_decode demo_mac 0 (Token [(''sub'', JStr ''1''), (''exp'', JInt 1800)] ''forged'') SECRET_KEY
     = Inl InvalidSignatureError \<and>
   jwt_decode demo_mac 1800000000 demo_token SECRET_KEY = Inl ExpiredSignatureError \<and>
   get_current_user demo_mac 0 (Malformed ''not.a.token'')
     = Inl (HTTPException 401 ''Invalid token'') \<and>
   get_current_user demo_mac 0 (Token [(''sub'', JStr ''1''), (''exp'', JInt 1800)] ''forged'')
     = Inl (HTTPException 401 ''Invalid token'') \<and>
   get_current_user demo_mac 1800000000 demo_token = Inl (HTTPException 401 ''Invalid token'')"
proof -
  have h1: "jwt_decode demo_mac 0 (Malformed ''not.a.token'') SECRET_KEY = Inl DecodeError"
    by (simp add: jwt_decode_def)
  have h2: "jwt_decode demo_mac 0 (Token [(''sub'', JStr ''1''), (''exp'', JInt 1800)] ''forged'')
              SECRET_KEY = Inl InvalidSignatureError"
    by (simp add: jwt_decode_def demo_mac_def SECRET_KEY_def)
  have h3: "jwt_decode demo_mac 1800000000 demo_token SECRET_KEY = Inl ExpiredSignatureError"
    by (simp add: auth_defs)
  from verification_failures_uniform[of demo_mac 0 "Malformed ''not.a.token''" DecodeError]
    verification_failures_uniform[of demo_mac 0
      "Token [(''sub'', JStr ''1''), (''exp'', JInt 1800)] ''forged''" InvalidSignatureError]
    verification_failures_uniform[of demo_mac 1800000000 demo_token ExpiredSignatureError]
    h1 h2 h3
  show ?thesis
    by simp
qed

subsection \<open>Issue, then verify\<close>




section \<open>Frame and ownership of the cache\<close>

subsection \<open>What adding leaves alone\<close>

text \<open>
  C9, as amended. \<^verbatim>\<open>add_post_to_db_and_cache\<close> leaves the set of cache keys as it was and
  the entry of every other owner unchanged; it leaves the cache as it was when the
  owner's entry is absent or expired, leaves the owner's entry as it was when that
  entry holds the empty list, and appends the created post to the owner's entry, keeping
  its expiry, when the entry is present and not empty.
\<close>

theorem add_post_cache_frame:
  assumes w1: "w1 = snd (add_post_to_db_and_cache post user_id w request now)"
  shows "fst ` set (cache w1) = fst ` set (cache w) \<and>
         (\<forall>k. k \<noteq> user_id \<longrightarrow> map_of (cache w1) k = map_of (cache w) k) \<and>
         (fst (cache_get now (cache w) user_id) = None \<longrightarrow> cache w1 = cache w) \<and>
         (fst (cache_get now (cache w) user_id) = Some [] \<longrightarrow>
            map_of (cache w1) user_id = map_of (cache w) user_id) \<and>
         (\<forall>xs. fst (cache_get now (cache w) user_id) = Some xs \<and> xs \<noteq> [] \<and>
               length (body request) \<le> 1000000 \<longrightarrow>
            (\<exists>e. map_of (cache w) user_id = Some (xs, e) \<and>
                 map_of (cache w1) user_id
                   = Some (xs @ [\<lparr>ident = next_id (db w), post_text = pc_text post,
                                  owner_id = user_id\<rparr>], e)))"
proof (cases "length (body request) > 1000000")
  case True
  then have "w1 = w"
    by (simp add: w1 add_post_to_db_and_cache_def)
  with True show ?thesis
    by (auto dest: cache_get_miss)
next
  case small: False
  show ?thesis
  proof (cases "fst (cache_get now (cache w) user_id)")
    case None
    then have "cache w1 = cache w"
      using small by (simp add: w1 add_post_to_db_and_cache_def db_add_commit_def
          cache_get_miss[OF None] Let_def)
    with None show ?thesis by simp
  next
    case (Some xs)
    from cache_get_hit[OF Some] obtain e where
      m: "map_of (cache w) user_id = Some (xs, e)"
      and g: "cache_get now (cache w) user_id
                = (Some xs, filter (\<lambda>l. fst l \<noteq> user_id) (cache w) @ [(user_id, xs, e)])"
      by blast
    have mem: "user_id \<in> fst ` set (cache w)"
      using m by (metis map_of_eq_None_iff option.distinct(1))
    show ?thesis
    proof (cases "xs = []")
      case True
      have c: "cache w1 = filter (\<lambda>l. fst l \<noteq> user_id) (cache w) @ [(user_id, xs, e)]"
        using small True
        by (simp add: w1 add_post_to_db_and_cache_def db_add_commit_def g Let_def)
      have keys: "fst ` set (cache w1) = fst ` set (cache w)"
        using mem by (auto simp: c)
      have others: "\<forall>k. k \<noteq> user_id \<longrightarrow> map_of (cache w1) k = map_of (cache w) k"
        by (simp only: c map_of_moved) simp
      have self: "map_of (cache w1) user_id = map_of (cache w) user_id"
        by (simp only: c map_of_moved m) simp
      show ?thesis
        using keys others self Some True by simp
    next
      case False
      let ?np = "\<lparr>ident = next_id (db w), post_text = pc_text post, owner_id = user_id\<rparr>"
      have c: "cache w1 = filter (\<lambda>l. fst l \<noteq> user_id) (cache w) @ [(user_id, xs @ [?np], e)]"
        using small False
        by (simp add: w1 add_post_to_db_and_cache_def db_add_commit_def g Let_def
            cache_append_moved from_orm_id)
      have keys: "fst ` set (cache w1) = fst ` set (cache w)"
        using mem by (auto simp: c)
      have others: "\<forall>k. k \<noteq> user_id \<longrightarrow> map_of (cache w1) k = map_of (cache w) k"
        by (simp only: c map_of_moved) simp
      have self: "map_of (cache w1) user_id = Some (xs @ [?np], e)"
        by (simp only: c map_of_moved) simp
      show ?thesis
        using keys others self Some False m by simp
    qed
  qed
qed

text \<open>
  C9, the amended statement on a concrete input: in \<open>warm_world\<close> the add of user 1
  appends to the entry of user 1, and the add of user 2, who has no entry, leaves the
  cache as it was.
\<close>

theorem add_post_cache_frame_witness:
  "fst (cache_get 0 (cache warm_world) 1)
     = Some [\<lparr>ident = 1, post_text = ''hello'', owner_id = 1\<rparr>] \<and>
   map_of (cache (snd (add_post_to_db_and_cache demo_post 1 warm_world demo_request 0))) 1
     = Some ([\<lparr>ident = 1, post_text = ''hello'', owner_id = 1\<rparr>,
              \<lparr>ident = 2, post_text = ''hello'', owner_id = 1\<rparr>], 300) \<and>
   map_of (cache (snd (add_post_to_db_and_cache demo_post 1 warm_world demo_request 0))) 2
     = None \<and>
   fst (cache_get 0 (cache warm_world) 2) = None \<and>
   cache (snd (add_post_to_db_and_cache demo_post 2 warm_world demo_request 0))
     = cache warm_world"
proof -
  have h1: "fst (cache_get 0 (cache warm_world) 1)
              = Some [\<lparr>ident = 1, post_text = ''hello'', owner_id = 1\<rparr>]"
    by (simp add: warm_world_eq cache_get_def)
  have h2: "length (body demo_request) \<le> 1000000"
    by (simp add: demo_request_def)
  have h3: "fst (cache_get 0 (cache warm_world) 2) = None"
    by (simp add: warm_world_eq cache_get_def)
  have h4: "map_of (cache warm_world) 2 = None"
    by (simp add: warm_world_eq)
  from add_post_cache_frame[OF refl, of demo_post 1 warm_world demo_request 0]
    add_post_cache_frame[OF refl, of demo_post 2 warm_world demo_request 0]
    h1 h2 h3 h4
  show ?thesis
    by (auto simp: warm_world_eq demo_post_def)
qed

text \<open>
  C9 as stated fails where the entry is present but holds the empty list: in
  \<open>emptied_world\<close> the add of user 1 succeeds and leaves the entry of user 1 empty.
\<close>

theorem add_post_skips_empty_entry:
  "fst (cache_get 0 (cache emptied_world) 1) = Some [] \<and>
   fst (add_post_to_db_and_cache demo_post 1 emptied_world demo_request 0)
     = Inr \<lparr>ident = 2, post_text = ''hello'', owner_id = 1\<rparr> \<and>
   map_of (cache (snd (add_post_to_db_and_cache demo_post 1 emptied_world demo_request 0))) 1
     = Some ([], 300)"
  by (simp add: emptied_world_eq demo_post_def demo_request_def model_defs del: set_filter)

subsection \<open>Whose posts are listed\<close>

text \<open>
  C10. After every sequence of service calls on a process that started with an empty
  cache, a successful \<^verbatim>\<open>get_posts\<close> has verified the token, converted its subject to a
  user id, and returns only posts whose owner is that user id.
\<close>

theorem listed_posts_belong_to_subject:
  assumes "get_posts mac parse tok (run calls (startup d)) utcnow now = (Inr posts, w')"
  shows "\<exists>payload user_id.
           get_current_user mac utcnow tok = Inr payload \<and>
           py_int parse (map_of payload ''sub'') = Inr user_id \<and>
           (\<forall>p \<in> set posts. owner_id p = user_id)"
proof -
  have inv: "\<forall>(k, v, e) \<in> set (cache (run calls (startup d))). \<forall>p \<in> set v. owner_id p = k"
    by (rule run_owned) (simp add: startup_def)
  from assms obtain payload user_id where
    a: "get_current_user mac utcnow tok = Inr payload"
    and b: "py_int parse (map_of payload ''sub'') = Inr user_id"
    and c: "get_user_posts_from_cache_or_db user_id (run calls (startup d)) now = (Inr posts, w')"
    by (auto simp: get_posts_def split: sum.splits)
  from list_owned[OF inv c] a b show ?thesis by blast
qed

text \<open>
  C10 on a concrete input: with the token of user 1, after user 1 added a post, the
  endpoint returns that post, whose owner is the subject of the token.
\<close>

theorem listed_posts_belong_to_subject_witness:
  "get_posts demo_mac demo_parse demo_token
     (run [AddPost demo_post 1 demo_request 0] (startup demo_db)) 10 0
     = (Inr [\<lparr>ident = 1, post_text = ''hello'', owner_id = 1\<rparr>],
        \<lparr>db = \<lparr>rows = [\<lparr>ident = 1, post_text = ''hello'', owner_id = 1\<rparr>],
                 next_id = 2, reads = 1\<rparr>,
           cache = [(1, [\<lparr>ident = 1, post_text = ''hello'', owner_id = 1\<rparr>], 300)]\<rparr>) \<and>
   get_current_user demo_mac 10 demo_token = Inr [(''sub'', JStr ''1''), (''exp'', JInt 1800)] \<and>
   py_int demo_parse (map_of [(''sub'', JStr ''1''), (''exp'', JInt 1800)] ''sub'')
     = Inr (owner_id \<lparr>ident = 1, post_text = ''hello'', owner_id = 1\<rparr>)"
proof -
  have u: "get_current_user demo_mac 10 demo_token
             = Inr [(''sub'', JStr ''1''), (''exp'', JInt 1800)]"
    by (simp add: auth_defs)
  have h: "get_posts demo_mac demo_parse demo_token
             (run [AddPost demo_post 1 demo_request 0] (startup demo_db)) 10 0
             = (Inr [\<lparr>ident = 1, post_text = ''hello'', owner_id = 1\<rparr>],
                \<lparr>db = \<lparr>rows = [\<lparr>ident = 1, post_text = ''hello'', owner_id = 1\<rparr>],
                         next_id = 2, reads = 1\<rparr>,
                   cache = [(1, [\<lparr>ident = 1, post_text = ''hello'', owner_id = 1\<rparr>], 300)]\<rparr>)"
    by (simp add: get_posts_def u py_int_def demo_parse_def eval_defs del: set_filter)
  from listed_posts_belong_to_subject[OF h] u h show ?thesis
    by auto
qed

end
